theory Spec2Isabelle
  imports Complex_Main
begin

section \<open>The wave game of App.tsx\<close>

text \<open>
  The component \<open>App\<close> keeps its whole state in \<open>useState\<close> cells and changes it from
  four interval callbacks, one time-out and the click handler. Each of them is modelled
  as a function from the state before to the state after; a callback runs to completion
  before the next one starts, and it sees the state of the last render.

  Numbers are JavaScript doubles. The counters (\<open>combo\<close>, \<open>level\<close>) only ever take
  natural values, \<open>lives\<close> and \<open>direction\<close> integer ones, and \<open>score\<close>, \<open>difficulty\<close>
  and \<open>speed\<close> are rationals: every score and difficulty the game computes is a multiple
  of one half, which a double holds exactly. The rounding of \<open>speed * 0.9\<close> is not
  modelled.
\<close>

subsection \<open>Constants and JavaScript arithmetic\<close>

definition rows :: nat where
  "rows = 15"

definition cols :: nat where
  "cols = 20"

definition waveWidth :: nat where
  "waveWidth = 6"

definition js_rem :: "int \<Rightarrow> int \<Rightarrow> int" where
  \<comment> \<open>The operator \<open>%\<close> on integers: the remainder of the truncating division, which has
     the sign of the dividend (\<open>-5 % 20\<close> is \<open>-5\<close>). The divisor is never 0 here.\<close>
  "js_rem a b = sgn a * (abs a mod abs b)"

definition js_trunc :: "rat \<Rightarrow> int" where
  "js_trunc q = (if q < 0 then - \<lfloor>- q\<rfloor> else \<lfloor>q\<rfloor>)"

definition js_frem :: "rat \<Rightarrow> rat \<Rightarrow> rat" where
  \<comment> \<open>The operator \<open>%\<close> on fractional operands, rounding left aside.\<close>
  "js_frem a b = a - b * of_int (js_trunc (a / b))"

subsection \<open>State\<close>

datatype WavePattern = NORMAL | SPLIT | ZIGZAG | CHAOS

datatype error = TypeError

record game =
  grid :: "bool list list"
  currentColor :: nat
  isPlaying :: bool
  speed :: rat
  direction :: int
  score :: rat
  highScore :: rat
  level :: nat
  combo :: nat
  targetCell :: "(nat \<times> nat) option"
  lives :: int
  gameOver :: bool
  wavePattern :: WavePattern
  difficulty :: rat
  powerUpActive :: bool
  position :: nat
  targetGen :: nat

text \<open>
  The first fifteen fields are the \<open>useState\<close> cells, in the order of the source.
  \<open>position\<close> is the local counter of the scheduler effect (\<open>let position = 0\<close>).
  \<open>targetCell\<close> holds an object, and each \<open>setTargetCell\<close> stores a new one; the
  dependency array of the scheduler effect compares it by identity, so \<open>targetGen\<close>
  counts the objects stored so far and tells two targets with equal coordinates apart.
\<close>

record env =
  rndRow :: rat
  rndCol :: rat
  rndPattern :: rat
  rndPowerUp :: rat
  rndChaos :: "nat \<Rightarrow> rat"
  sinOffset :: "nat \<Rightarrow> rat"

text \<open>
  What a callback takes from outside the state: the results of its calls of
  \<open>Math.random()\<close> (each in \<open>[0, 1)\<close>; \<open>rndChaos i\<close> is the draw for row \<open>i\<close>), and
  \<open>sinOffset i\<close>, the double \<open>Math.sin(i * 0.5) * 3\<close>.
\<close>

definition initial :: game where
  "initial = \<lparr>grid = [], currentColor = 0, isPlaying = True, speed = 100, direction = 1,
     score = 0, highScore = 0, level = 1, combo = 0, targetCell = None, lives = 3,
     gameOver = False, wavePattern = NORMAL, difficulty = 1, powerUpActive = False,
     position = 0, targetGen = 0\<rparr>"

subsection \<open>Grid and reset\<close>

definition createEmptyGrid :: "bool list list" where
  "createEmptyGrid = replicate rows (replicate cols False)"

definition initializeGrid :: "game \<Rightarrow> game" where
  "initializeGrid s = s\<lparr>grid := createEmptyGrid, score := 0, level := 1, combo := 0,
     lives := 3, gameOver := False, speed := 100, wavePattern := NORMAL, difficulty := 1,
     powerUpActive := False\<rparr>"

definition generateNewTarget :: "env \<Rightarrow> game \<Rightarrow> game" where
  "generateNewTarget e s =
     s\<lparr>targetCell := Some (nat \<lfloor>rndRow e * of_nat rows\<rfloor>, nat \<lfloor>rndCol e * of_nat cols\<rfloor>),
       targetGen := targetGen s + 1\<rparr>"

subsection \<open>The wave generator\<close>

definition setLit :: "bool list \<Rightarrow> int \<Rightarrow> bool list" where
  \<comment> \<open>\<open>row[col] = true\<close> on a JavaScript array. A negative key is an ordinary property of
     the array object and no element of it: \<open>length\<close>, \<open>map\<close> and the reads at
     \<open>0 .. cols - 1\<close> never see it. A key past the end would extend the array (the holes
     read as \<open>undefined\<close>, which is falsy).\<close>
  "setLit r c =
     (if c < 0 then r
      else if c < int (length r) then r[nat c := True]
      else r @ replicate (nat c - length r) False @ [True])"

definition splitRow :: "nat \<Rightarrow> bool list \<Rightarrow> bool list" where
  "splitRow p r =
     fold (\<lambda>j acc.
       let col1 = js_rem (int p + int j) (int cols);
           col2 = js_rem ((int cols - 1) - (int p + int j)) (int cols)
       in setLit (setLit acc col1) col2) [0..<waveWidth] r"

definition offsetRow :: "rat \<Rightarrow> nat \<Rightarrow> bool list \<Rightarrow> bool list" where
  "offsetRow offset p r =
     fold (\<lambda>j acc.
       let col = \<lfloor>js_frem (of_nat p + of_nat j + offset + of_nat cols) (of_nat cols)\<rfloor>
       in if col \<ge> 0 \<and> col < int cols then setLit acc col else acc) [0..<waveWidth] r"

definition normalRow :: "int \<Rightarrow> nat \<Rightarrow> bool list \<Rightarrow> bool list" where
  "normalRow dir p r =
     fold (\<lambda>j acc.
       let col = (if dir = 1 then js_rem (int p + int j) (int cols)
                  else js_rem ((int cols - 1) - (int p + int j)) (int cols))
       in setLit acc col) [0..<waveWidth] r"

definition forRows :: "(nat \<Rightarrow> bool list \<Rightarrow> bool list) \<Rightarrow> bool list list \<Rightarrow> error + bool list list" where
  \<comment> \<open>\<open>for (let i = 0; i < rows; i++)\<close> over \<open>newGrid[i]\<close>; a grid with fewer rows makes
     \<open>newGrid[i][col]\<close> a property access on \<open>undefined\<close>.\<close>
  "forRows f newGrid =
     (if length newGrid < rows then Inl TypeError
      else Inr (map (\<lambda>i. f i (newGrid ! i)) [0..<rows] @ drop rows newGrid))"

definition updateWavePattern :: "env \<Rightarrow> game \<Rightarrow> nat \<Rightarrow> bool list list \<Rightarrow> error + bool list list" where
  "updateWavePattern e s p newGrid =
     (case wavePattern s of
        SPLIT \<Rightarrow> forRows (\<lambda>i. splitRow p) newGrid
      | ZIGZAG \<Rightarrow> forRows (\<lambda>i. offsetRow (sinOffset e i) p) newGrid
      | CHAOS \<Rightarrow> forRows (\<lambda>i. offsetRow (rndChaos e i * 4 - 2) p) newGrid
      | NORMAL \<Rightarrow> forRows (\<lambda>i. normalRow (direction s) p) newGrid)"

definition litCols :: "bool list \<Rightarrow> nat list" where
  \<comment> \<open>The columns of a row that are lit, in increasing order.\<close>
  "litCols r = filter (\<lambda>c. r ! c) [0..<length r]"

subsection \<open>The click handler\<close>

definition cellLit :: "bool list list \<Rightarrow> nat \<Rightarrow> nat \<Rightarrow> error + bool" where
  \<comment> \<open>The read \<open>grid[row][col]\<close>: a row that is missing makes it a property access on
     \<open>undefined\<close>, a column that is missing reads \<open>undefined\<close>, which is falsy.\<close>
  "cellLit g row col =
     (if row < length g
      then Inr (if col < length (g ! row) then g ! row ! col else False)
      else Inl TypeError)"

definition comboMultiplier :: "game \<Rightarrow> nat" where
  "comboMultiplier s = min (combo s + 1) 5"

definition points :: "game \<Rightarrow> rat" where
  "points s = 100 * of_nat (comboMultiplier s) * of_nat (level s) * difficulty s"

definition pickPattern :: "rat \<Rightarrow> WavePattern" where
  \<comment> \<open>\<open>patterns[Math.floor(Math.random() * patterns.length)]\<close> over
     \<open>Object.values(WAVE_PATTERNS)\<close>; the draw is below 1, so the index is at most 3.\<close>
  "pickPattern u =
     (let i = \<lfloor>u * 4\<rfloor>
      in if i = 0 then NORMAL else if i = 1 then SPLIT else if i = 2 then ZIGZAG else CHAOS)"

definition levelUp :: "env \<Rightarrow> game \<Rightarrow> game" where
  \<comment> \<open>The updater passed to \<open>setLevel\<close>, with the updates it queues.\<close>
  "levelUp e s =
     (let newLevel = level s + 1;
          s1 = (if js_rem (int newLevel) 3 = 0
                then s\<lparr>difficulty := min (difficulty s + 1 / 2) 3,
                       speed := max (speed s * (9 / 10)) 50\<rparr>
                else s);
          s2 = (if js_rem (int newLevel) 5 = 0
                then s1\<lparr>wavePattern := pickPattern (rndPattern e)\<rparr>
                else s1)
      in s2\<lparr>level := newLevel\<rparr>)"

definition hit :: "env \<Rightarrow> game \<Rightarrow> game" where
  \<comment> \<open>The branch under \<open>// Successful hit\<close>.\<close>
  "hit e s =
     (let pts = points s;
          s1 = s\<lparr>score := score s + pts, combo := combo s + 1\<rparr>;
          s2 = (if score s + pts \<ge> of_nat (level s) * 1000 then levelUp e s1 else s1)
      in generateNewTarget e s2)"

definition loseLife :: "game \<Rightarrow> game" where
  \<comment> \<open>The updater passed to \<open>setLives\<close>, the same in the click handler and in the
     target check; \<open>score\<close> is the score of the last render.\<close>
  "loseLife s =
     (let newLives = lives s - 1;
          s1 = (if newLives \<le> 0
                then s\<lparr>gameOver := True, highScore := max (highScore s) (score s)\<rparr>
                else s)
      in s1\<lparr>lives := newLives\<rparr>)"

definition miss :: "game \<Rightarrow> game" where
  \<comment> \<open>The \<open>else\<close> branch of the click handler.\<close>
  "miss s =
     (let s1 = s\<lparr>combo := 0\<rparr>
      in if \<not> powerUpActive s then loseLife s1 else s1)"

definition handleCellClick :: "env \<Rightarrow> nat \<Rightarrow> nat \<Rightarrow> game \<Rightarrow> error + game" where
  "handleCellClick e row col s =
     (if \<not> isPlaying s \<or> gameOver s then Inr s
      else case targetCell s of
        None \<Rightarrow> Inr s
      | Some (trow, tcol) \<Rightarrow>
          if row = trow \<and> col = tcol
          then (case cellLit (grid s) row col of
                  Inl err \<Rightarrow> Inl err
                | Inr lit \<Rightarrow> Inr (if lit then hit e s else miss s))
          else Inr (miss s))"

subsection \<open>The timers\<close>

definition waveTick :: "env \<Rightarrow> game \<Rightarrow> error + game" where
  \<comment> \<open>The wave interval. The callback queues the updater of \<open>setGrid\<close>, advances the
     counter and flips the direction when the counter wraps; the updater runs at the next
     render and reads the counter then, so the grid is drawn at the advanced position,
     with the pattern and the direction of the render that armed the interval.\<close>
  "waveTick e s =
     (let p = nat (js_rem (int (position s) + 1) (int cols))
      in case updateWavePattern e s p createEmptyGrid of
           Inl err \<Rightarrow> Inl err
         | Inr newGrid \<Rightarrow>
             let s1 = s\<lparr>grid := newGrid, position := p\<rparr>
             in Inr (if p = 0 then s1\<lparr>direction := direction s * (- 1)\<rparr> else s1))"

definition colorTick :: "game \<Rightarrow> game" where
  \<comment> \<open>\<open>COLORS\<close> has five entries.\<close>
  "colorTick s = s\<lparr>currentColor := nat (js_rem (int (currentColor s) + 1) 5)\<rparr>"

definition targetCheck :: "env \<Rightarrow> game \<Rightarrow> game" where
  \<comment> \<open>The target interval: a target that is still there costs a life, unless the shield
     is up, and a new target is drawn.\<close>
  "targetCheck e s =
     (if targetCell s \<noteq> None \<and> \<not> powerUpActive s
      then generateNewTarget e (loseLife s)
      else s)"

definition powerUpRoll :: "env \<Rightarrow> game \<Rightarrow> game" where
  "powerUpRoll e s = (if rndPowerUp e < 1 / 10 then s\<lparr>powerUpActive := True\<rparr> else s)"

definition powerUpOff :: "game \<Rightarrow> game" where
  \<comment> \<open>The time-out set by a successful roll; nothing ever cancels it.\<close>
  "powerUpOff s = s\<lparr>powerUpActive := False\<rparr>"

definition togglePlay :: "game \<Rightarrow> game" where
  \<comment> \<open>The Pause/Play button, which is disabled once the game is over.\<close>
  "togglePlay s = (if gameOver s then s else s\<lparr>isPlaying := \<not> isPlaying s\<rparr>)"

subsection \<open>Effects and the engine's steps\<close>

definition playing :: "game \<Rightarrow> bool" where
  \<comment> \<open>The guard of both effects: the intervals exist only while it holds.\<close>
  "playing s = (isPlaying s \<and> \<not> gameOver s)"

definition targetEffect :: "env \<Rightarrow> game \<Rightarrow> game \<Rightarrow> game" where
  \<comment> \<open>The effect on \<open>[isPlaying, gameOver, generateNewTarget]\<close>: it runs again when one
     of the two flags has changed (\<open>generateNewTarget\<close> never changes).\<close>
  "targetEffect e old new =
     (if (isPlaying new \<noteq> isPlaying old \<or> gameOver new \<noteq> gameOver old) \<and> playing new
      then generateNewTarget e new
      else new)"

definition schedDeps :: "game \<Rightarrow> bool \<times> rat \<times> int \<times> bool \<times> nat \<times> rat \<times> WavePattern \<times> rat \<times> bool" where
  \<comment> \<open>The state in the dependency array of the scheduler effect; \<open>updateWavePattern\<close>
     stands for \<open>wavePattern\<close> and \<open>direction\<close>, and the target object for its identity.\<close>
  "schedDeps s = (isPlaying s, speed s, direction s, gameOver s, targetGen s, score s,
     wavePattern s, difficulty s, powerUpActive s)"

definition rearm :: "game \<Rightarrow> game \<Rightarrow> game" where
  \<comment> \<open>A changed dependency clears the four intervals and runs the effect again, which
     starts the counter at 0.\<close>
  "rearm old new = (if schedDeps new \<noteq> schedDeps old then new\<lparr>position := 0\<rparr> else new)"

definition rerender :: "env \<Rightarrow> game \<Rightarrow> game \<Rightarrow> game" where
  "rerender e old new = rearm old (targetEffect e old new)"

datatype event =
  Click nat nat | WaveTick | ColorTick | TargetCheck | PowerUpRoll | PowerUpOff
  | TogglePlay | NewGame

fun fire :: "env \<Rightarrow> event \<Rightarrow> game \<Rightarrow> error + game" where
  "fire e (Click row col) s = handleCellClick e row col s"
| "fire e WaveTick s = (if playing s then waveTick e s else Inr s)"
| "fire e ColorTick s = Inr (if playing s then colorTick s else s)"
| "fire e TargetCheck s = Inr (if playing s then targetCheck e s else s)"
| "fire e PowerUpRoll s = Inr (if playing s then powerUpRoll e s else s)"
| "fire e PowerUpOff s = Inr (powerUpOff s)"
| "fire e TogglePlay s = Inr (togglePlay s)"
| "fire e NewGame s = Inr (initializeGrid s)"

definition step :: "env \<Rightarrow> event \<Rightarrow> game \<Rightarrow> error + game" where
  "step e ev s = (case fire e ev s of Inl err \<Rightarrow> Inl err | Inr s' \<Rightarrow> Inr (rerender e s s'))"

fun run :: "(env \<times> event) list \<Rightarrow> game \<Rightarrow> error + game" where
  "run [] s = Inr s"
| "run ((e, ev) # rest) s = (case step e ev s of Inl err \<Rightarrow> Inl err | Inr s' \<Rightarrow> run rest s')"

definition mount :: "env \<Rightarrow> game" where
  \<comment> \<open>The state after the first render and its effects: the reset, then the first target.\<close>
  "mount e = generateNewTarget e (initializeGrid initial)"

subsection \<open>Example states\<close>

definition env0 :: env where
  \<comment> \<open>The target lands on row 0, column 1 (\<open>Math.floor(0.0625 * 20)\<close>), the pattern
     drawn is the first and the power-up roll fails.\<close>
  "env0 = \<lparr>rndRow = 0, rndCol = 1 / 16, rndPattern = 0, rndPowerUp = 1 / 2, rndChaos = (\<lambda>i. 0),
     sinOffset = (\<lambda>i. 0)\<rparr>"

definition waveAtStart :: "bool list list" where
  \<comment> \<open>The grid of the first wave tick: columns 1 to 6 of every row.\<close>
  "waveAtStart = replicate 15 (False # replicate 6 True @ replicate 13 False)"

definition midGame :: game where
  "midGame = initial\<lparr>grid := waveAtStart, targetCell := Some (0, 1), targetGen := 1,
     score := 2400, level := 3, combo := 2, difficulty := 3 / 2, speed := 90\<rparr>"

definition lateGame :: game where
  "lateGame = initial\<lparr>grid := waveAtStart, targetCell := Some (0, 1), targetGen := 1,
     score := 4900, level := 5, combo := 4, difficulty := 3 / 2, speed := 90\<rparr>"

definition hitOnce :: game where
  \<comment> \<open>The game after its first wave tick and one hit.\<close>
  "hitOnce = \<lparr>grid = waveAtStart, currentColor = 0, isPlaying = True, speed = 100,
     direction = 1, score = 100, highScore = 0, level = 1, combo = 1,
     targetCell = Some (0, 1), lives = 3, gameOver = False, wavePattern = NORMAL,
     difficulty = 1, powerUpActive = False, position = 0, targetGen = 2\<rparr>"

definition lastLife :: game where
  "lastLife = midGame\<lparr>lives := 1, highScore := 1000\<rparr>"

definition overGame :: game where
  \<comment> \<open>\<open>lastLife\<close> after its target has expired.\<close>
  "overGame = lastLife\<lparr>lives := 0, gameOver := True, highScore := 2400, targetGen := 2\<rparr>"

definition freshWave :: game where
  \<comment> \<open>The mounted game after its first wave tick, before any click.\<close>
  "freshWave = initial\<lparr>grid := waveAtStart, targetCell := Some (0, 1), targetGen := 1,
     position := 1\<rparr>"

definition splitGame :: game where
  "splitGame = initial\<lparr>grid := createEmptyGrid, wavePattern := SPLIT\<rparr>"

definition leftGame :: game where
  "leftGame = initial\<lparr>grid := createEmptyGrid, direction := - 1\<rparr>"

subsection \<open>Runs of clicks\<close>

fun clicks :: "(env \<times> nat \<times> nat) list \<Rightarrow> game \<Rightarrow> error + game" where
  \<comment> \<open>The click handler called once for each click of the list, in order.\<close>
  "clicks [] s = Inr s"
| "clicks ((e, row, col) # cs) s =
     (case handleCellClick e row col s of Inl err \<Rightarrow> Inl err | Inr s' \<Rightarrow> clicks cs s')"

fun allHits :: "(env \<times> nat \<times> nat) list \<Rightarrow> game \<Rightarrow> bool" where
  \<comment> \<open>Every click of the list finds the game running, its target under the click and
     the cell lit: the clicks are consecutive hits.\<close>
  "allHits [] s = True"
| "allHits ((e, row, col) # cs) s =
     (isPlaying s \<and> \<not> gameOver s \<and> targetCell s = Some (row, col)
      \<and> cellLit (grid s) row col = Inr True \<and> allHits cs (hit e s))"

subsection \<open>The lit columns as the specification words them\<close>

text \<open>
  The specification gives the lit columns of a row with indices taken modulo \<open>cols\<close>.
  These two definitions follow its words, with the mathematical \<open>mod\<close>; they are not
  taken from the source and serve only to be compared with it.
\<close>

definition specSplitCols :: "nat \<Rightarrow> nat list" where
  "specSplitCols p =
     concat (map (\<lambda>j. [nat ((int p + int j) mod int cols),
                        nat ((int cols - 1 - (int p + int j)) mod int cols)]) [0..<waveWidth])"

definition specNormalCols :: "int \<Rightarrow> nat \<Rightarrow> nat list" where
  "specNormalCols dir p =
     map (\<lambda>j. if dir = 1 then nat ((int p + int j) mod int cols)
               else nat ((int cols - 1 - (int p + int j)) mod int cols)) [0..<waveWidth]"

section \<open>Properties\<close>

subsection \<open>How a click is resolved\<close>

lemma hit_result:
  assumes "isPlaying s" "\<not> gameOver s" "targetCell s = Some (row, col)"
    "row < length (grid s)" "col < length (grid s ! row)" "grid s ! row ! col"
  shows "handleCellClick e row col s = Inr (hit e s)"
  using assms by (simp add: handleCellClick_def cellLit_def)

lemma miss_result:
  assumes "isPlaying s" "\<not> gameOver s" "targetCell s = Some t" "row < length (grid s)"
    "\<not> (t = (row, col) \<and> col < length (grid s ! row) \<and> grid s ! row ! col)"
  shows "handleCellClick e row col s = Inr (miss s)"
  using assms by (cases t) (auto simp add: handleCellClick_def cellLit_def)

lemma ignored_result:
  assumes "\<not> isPlaying s \<or> gameOver s \<or> targetCell s = None"
  shows "handleCellClick e row col s = Inr s"
  using assms by (auto simp add: handleCellClick_def)

lemma score_hit: "score (hit e s) = score s + points s"
  by (simp add: hit_def Let_def generateNewTarget_def levelUp_def)

lemma combo_hit: "combo (hit e s) = combo s + 1"
  by (simp add: hit_def Let_def generateNewTarget_def levelUp_def)

lemma level_hit:
  "level (hit e s) = (if of_nat (level s) * 1000 \<le> score s + points s then level s + 1 else level s)"
  by (simp add: hit_def Let_def generateNewTarget_def levelUp_def)

lemma combo_miss: "combo (miss s) = 0"
  by (simp add: miss_def loseLife_def Let_def)

lemma lives_miss: "lives (miss s) = (if powerUpActive s then lives s else lives s - 1)"
  by (simp add: miss_def loseLife_def Let_def)

lemma midGame_fields:
  "isPlaying midGame" "\<not> gameOver midGame" "targetCell midGame = Some (0, 1)"
  "0 < length (grid midGame)" "1 < length (grid midGame ! 0)" "grid midGame ! 0 ! 1"
  by (simp_all add: midGame_def initial_def waveAtStart_def nth_append)

lemma lateGame_fields:
  "isPlaying lateGame" "\<not> gameOver lateGame" "targetCell lateGame = Some (0, 1)"
  "0 < length (grid lateGame)" "1 < length (grid lateGame ! 0)" "grid lateGame ! 0 ! 1"
  by (simp_all add: lateGame_def initial_def waveAtStart_def nth_append)

lemma rerender_keeps:
  "combo (rerender e old new) = combo new" "lives (rerender e old new) = lives new"
  "score (rerender e old new) = score new" "level (rerender e old new) = level new"
  "highScore (rerender e old new) = highScore new" "gameOver (rerender e old new) = gameOver new"
  "grid (rerender e old new) = grid new" "speed (rerender e old new) = speed new"
  "wavePattern (rerender e old new) = wavePattern new"
  "difficulty (rerender e old new) = difficulty new"
  "powerUpActive (rerender e old new) = powerUpActive new"
  "isPlaying (rerender e old new) = isPlaying new"
  by (simp_all add: rerender_def rearm_def targetEffect_def generateNewTarget_def)

lemma loseLife_fields:
  "lives (loseLife s) = lives s - 1" "combo (loseLife s) = combo s"
  "score (loseLife s) = score s" "level (loseLife s) = level s"
  "gameOver (loseLife s) = (gameOver s \<or> lives s \<le> 1)"
  "highScore (loseLife s) = (if lives s \<le> 1 then max (highScore s) (score s) else highScore s)"
  by (simp_all add: loseLife_def Let_def)

lemma targetCheck_fields:
  "combo (targetCheck e s) = combo s" "score (targetCheck e s) = score s"
  "level (targetCheck e s) = level s"
  "lives (targetCheck e s) = (if targetCell s \<noteq> None \<and> \<not> powerUpActive s then lives s - 1 else lives s)"
  "gameOver (targetCheck e s) = (gameOver s \<or> targetCell s \<noteq> None \<and> \<not> powerUpActive s \<and> lives s \<le> 1)"
  "highScore (targetCheck e s) = (if targetCell s \<noteq> None \<and> \<not> powerUpActive s \<and> lives s \<le> 1
     then max (highScore s) (score s) else highScore s)"
  by (auto simp add: targetCheck_def generateNewTarget_def loseLife_fields)

lemma miss_fields:
  "score (miss s) = score s" "level (miss s) = level s"
  "gameOver (miss s) = (gameOver s \<or> \<not> powerUpActive s \<and> lives s \<le> 1)"
  "highScore (miss s) = (if \<not> powerUpActive s \<and> lives s \<le> 1
     then max (highScore s) (score s) else highScore s)"
  by (auto simp add: miss_def Let_def loseLife_def)

lemma hitOnce_fields:
  "isPlaying hitOnce" "\<not> gameOver hitOnce" "targetCell hitOnce = Some (0, 1)"
  "0 < length (grid hitOnce)" "1 < length (grid hitOnce ! 0)" "grid hitOnce ! 0 ! 1"
  "combo hitOnce = 1" "lives hitOnce = 3" "\<not> powerUpActive hitOnce"
  "3 < length (grid hitOnce)"
  by (simp_all add: hitOnce_def waveAtStart_def nth_append)

lemma lastLife_fields:
  "isPlaying lastLife" "\<not> gameOver lastLife" "targetCell lastLife = Some (0, 1)"
  "\<not> powerUpActive lastLife" "lives lastLife = 1" "score lastLife = 2400"
  "highScore lastLife = 1000" "0 < length (grid lastLife)"
  by (simp_all add: lastLife_def midGame_def initial_def waveAtStart_def)

lemma overGame_fields:
  "gameOver overGame" "score overGame = 2400" "lives overGame = 0" "level overGame = 3"
  "highScore overGame = 2400"
  by (simp_all add: overGame_def lastLife_def midGame_def initial_def)

lemma example_states_reached:
  "step env0 WaveTick (mount env0) = Inr freshWave"
  "step env0 TargetCheck lastLife = Inr overGame"
  by code_simp+

lemma miss_frame_eq:
  "(miss s)\<lparr>combo := combo s, lives := lives s, gameOver := gameOver s,
      highScore := highScore s\<rparr> = s"
  by (simp add: miss_def loseLife_def Let_def)

lemma targetCheck_frame_eq:
  "(targetCheck e s)\<lparr>lives := lives s, targetCell := targetCell s, targetGen := targetGen s,
      gameOver := gameOver s, highScore := highScore s\<rparr> = s"
  by (simp add: targetCheck_def loseLife_def Let_def generateNewTarget_def)

lemma targetCheck_frame:
  "wavePattern (targetCheck e s) = wavePattern s" "speed (targetCheck e s) = speed s"
  "difficulty (targetCheck e s) = difficulty s"
  by (simp_all add: targetCheck_def loseLife_def Let_def generateNewTarget_def)

lemma miss_keeps:
  "wavePattern (miss s) = wavePattern s" "speed (miss s) = speed s"
  "difficulty (miss s) = difficulty s"
  by (simp_all add: miss_def loseLife_def Let_def)

lemma step_when_over:
  assumes "gameOver s" "ev \<noteq> NewGame"
  shows "\<exists>s'. step e ev s = Inr s' \<and> gameOver s' \<and> score s' = score s \<and> lives s' = lives s
     \<and> level s' = level s \<and> highScore s' = highScore s"
  using assms
  by (cases ev)
    (simp_all add: step_def rerender_keeps handleCellClick_def playing_def powerUpOff_def
      togglePlay_def)

lemma run_when_over:
  assumes "gameOver s" "\<forall>x\<in>set tr. snd x \<noteq> NewGame"
  shows "\<exists>s'. run tr s = Inr s' \<and> gameOver s' \<and> score s' = score s \<and> lives s' = lives s
     \<and> level s' = level s \<and> highScore s' = highScore s"
  using assms
proof (induction tr arbitrary: s)
  case Nil
  then show ?case by simp
next
  case (Cons x tr)
  obtain e ev where x: "x = (e, ev)" by (cases x)
  with Cons.prems have "ev \<noteq> NewGame" by simp
  with Cons.prems(1) obtain s1 where s1: "step e ev s = Inr s1" "gameOver s1"
    "score s1 = score s" "lives s1 = lives s" "level s1 = level s" "highScore s1 = highScore s"
    using step_when_over by blast
  from Cons.IH [OF s1(2)] Cons.prems(2) obtain s' where "run tr s1 = Inr s'" "gameOver s'"
    "score s' = score s1" "lives s' = lives s1" "level s' = level s1" "highScore s' = highScore s1"
    by auto
  with s1 x show ?case by simp
qed

text \<open>
  C1. A click on the target while its cell is lit is a hit: the score grows by
  \<open>100 * min (combo + 1) 5 * level * difficulty\<close>, all read before the hit, and the combo
  grows by 1. With combo 2, level 3 and difficulty 1.5 that is 1350 points.
\<close>

theorem hit_awards_points:
  assumes "isPlaying s" "\<not> gameOver s" "targetCell s = Some (row, col)"
    "row < length (grid s)" "col < length (grid s ! row)" "grid s ! row ! col"
  shows "\<exists>s'. handleCellClick e row col s = Inr s'
     \<and> score s' = score s + 100 * of_nat (min (combo s + 1) 5) * of_nat (level s) * difficulty s
     \<and> combo s' = combo s + 1
     \<and> (combo s = 2 \<and> level s = 3 \<and> difficulty s = 3 / 2 \<longrightarrow> score s' = score s + 1350)"
proof -
  have "handleCellClick e row col s = Inr (hit e s)"
    using assms by (rule hit_result)
  moreover have "score (hit e s)
      = score s + 100 * of_nat (min (combo s + 1) 5) * of_nat (level s) * difficulty s"
    by (simp add: score_hit points_def comboMultiplier_def)
  moreover have "combo s = 2 \<and> level s = 3 \<and> difficulty s = 3 / 2
      \<longrightarrow> score (hit e s) = score s + 1350"
    by (simp add: score_hit points_def comboMultiplier_def)
  ultimately show ?thesis
    using combo_hit by blast
qed

theorem hit_awards_points_witness:
  "\<exists>s'. handleCellClick env0 0 1 midGame = Inr s' \<and> score s' = 3750 \<and> combo s' = 3"
proof -
  have "score midGame = 2400" "combo midGame = 2" "level midGame = 3"
    "difficulty midGame = 3 / 2"
    by (simp_all add: midGame_def initial_def)
  with hit_awards_points [OF midGame_fields, of env0] show ?thesis
    by auto
qed

text \<open>
  C5. A hit raises the level by 1 when the score after the hit has reached
  \<open>level * 1000\<close> (the level before the hit) and leaves it alone otherwise; the test is
  made once, so a hit that passes several thresholds still raises the level by 1.
\<close>

theorem level_up_once:
  assumes "isPlaying s" "\<not> gameOver s" "targetCell s = Some (row, col)"
    "row < length (grid s)" "col < length (grid s ! row)" "grid s ! row ! col"
  shows "\<exists>s'. handleCellClick e row col s = Inr s'
     \<and> level s' =
         (if of_nat (level s) * 1000
               \<le> score s + 100 * of_nat (min (combo s + 1) 5) * of_nat (level s) * difficulty s
          then level s + 1 else level s)"
proof -
  have "handleCellClick e row col s = Inr (hit e s)"
    using assms by (rule hit_result)
  then show ?thesis
    by (simp add: level_hit points_def comboMultiplier_def)
qed

text \<open>
  At level 5 with 4900 points, a hit worth 3750 takes the score to 8650, past the
  thresholds 5000, 6000, 7000 and 8000, and the level to 6.
\<close>

theorem level_up_once_witness:
  "\<exists>s'. handleCellClick env0 0 1 lateGame = Inr s' \<and> score s' = 8650 \<and> level s' = 6"
proof -
  have "score (hit env0 lateGame) = 8650"
    by (simp add: score_hit points_def comboMultiplier_def lateGame_def initial_def)
  then show ?thesis
    using level_up_once [OF lateGame_fields, of env0] hit_result [OF lateGame_fields, of env0]
    by (simp add: lateGame_def initial_def)
qed

text \<open>
  C7. While the game runs and a target is there, a click is a hit exactly when it is on
  the target and the cell is lit, and a miss otherwise, also on the unlit target: a miss
  clears the combo and costs a life unless the shield is up, a hit adds to score and
  combo. A click while paused, after the game is over or with no target changes nothing.
\<close>

theorem click_outcome:
  assumes "row < length (grid s)"
  shows "(\<not> isPlaying s \<or> gameOver s \<or> targetCell s = None
            \<longrightarrow> handleCellClick e row col s = Inr s)
     \<and> (isPlaying s \<and> \<not> gameOver s \<and> targetCell s = Some t \<longrightarrow>
          (if t = (row, col) \<and> col < length (grid s ! row) \<and> grid s ! row ! col
           then handleCellClick e row col s = Inr (hit e s)
           else handleCellClick e row col s = Inr (miss s)))
     \<and> score (hit e s) = score s + points s \<and> combo (hit e s) = combo s + 1
     \<and> combo (miss s) = 0
     \<and> lives (miss s) = (if powerUpActive s then lives s else lives s - 1)"
proof -
  have "\<not> isPlaying s \<or> gameOver s \<or> targetCell s = None
      \<longrightarrow> handleCellClick e row col s = Inr s"
    using ignored_result by blast
  moreover have "isPlaying s \<and> \<not> gameOver s \<and> targetCell s = Some t \<longrightarrow>
          (if t = (row, col) \<and> col < length (grid s ! row) \<and> grid s ! row ! col
           then handleCellClick e row col s = Inr (hit e s)
           else handleCellClick e row col s = Inr (miss s))"
    using assms hit_result [of s row col e] miss_result [of s t row col e] by auto
  ultimately show ?thesis
    using score_hit combo_hit combo_miss lives_miss by blast
qed

theorem click_outcome_witness:
  "handleCellClick env0 0 1 midGame = Inr (hit env0 midGame)
   \<and> handleCellClick env0 0 7 midGame = Inr (miss midGame)
   \<and> handleCellClick env0 0 1 (midGame\<lparr>isPlaying := False\<rparr>) = Inr (midGame\<lparr>isPlaying := False\<rparr>)
   \<and> combo (hit env0 midGame) = 3 \<and> combo (miss midGame) = 0 \<and> lives (miss midGame) = 2"
proof -
  have g: "0 < length (grid midGame)" "0 < length (grid (midGame\<lparr>isPlaying := False\<rparr>))"
    by (simp_all add: midGame_def initial_def waveAtStart_def)
  have c: "combo midGame = 2" "lives midGame = 3" "\<not> powerUpActive midGame"
    by (simp_all add: midGame_def initial_def)
  show ?thesis
    using click_outcome [OF g(1), of env0 1 "(0, 1)"] click_outcome [OF g(1), of env0 7 "(0, 1)"]
      click_outcome [OF g(2), of env0 1 "(0, 1)"] midGame_fields c
    by simp
qed

subsection \<open>Combo, lives and the end of the game\<close>

text \<open>
  C2, as the claim states it, fails: the target check takes a life and leaves the combo
  alone. The mounted game has its target on row 0, column 1; the first wave tick lights
  columns 1 to 6, a click on the target is a hit and gives combo 1 with three lives, and
  the target check that follows leaves two lives and combo 1.
\<close>

theorem expiry_keeps_combo:
  "run [(env0, WaveTick), (env0, Click 0 1)] (mount env0) = Inr hitOnce
   \<and> \<not> grid hitOnce ! 0 ! 0 \<and> grid hitOnce ! 0 ! 1
   \<and> combo hitOnce = 1 \<and> lives hitOnce = 3
   \<and> step env0 TargetCheck hitOnce = Inr (hitOnce\<lparr>lives := 2, targetGen := 3\<rparr>)
   \<and> combo (hitOnce\<lparr>lives := 2, targetGen := 3\<rparr>) = 1"
  by code_simp

text \<open>
  C2, amended. In every state, a click resolved as a hit adds 1 to the combo and a click
  resolved as a miss sets it to 0, shield or not; the target check never changes the
  combo, also when it takes a life.
\<close>

theorem combo_updates:
  "(isPlaying s \<and> \<not> gameOver s \<and> targetCell s = Some (row, col) \<and> row < length (grid s)
      \<and> col < length (grid s ! row) \<and> grid s ! row ! col
      \<longrightarrow> (\<exists>s'. step e (Click row col) s = Inr s' \<and> combo s' = combo s + 1))
   \<and> (isPlaying s \<and> \<not> gameOver s \<and> targetCell s = Some t \<and> row < length (grid s)
      \<and> \<not> (t = (row, col) \<and> col < length (grid s ! row) \<and> grid s ! row ! col)
      \<longrightarrow> (\<exists>s'. step e (Click row col) s = Inr s' \<and> combo s' = 0))
   \<and> (\<exists>s'. step e TargetCheck s = Inr s' \<and> combo s' = combo s
        \<and> (isPlaying s \<and> \<not> gameOver s \<and> targetCell s \<noteq> None \<and> \<not> powerUpActive s
            \<longrightarrow> lives s' = lives s - 1))"
proof (intro conjI impI)
  assume "isPlaying s \<and> \<not> gameOver s \<and> targetCell s = Some (row, col) \<and> row < length (grid s)
      \<and> col < length (grid s ! row) \<and> grid s ! row ! col"
  then have "handleCellClick e row col s = Inr (hit e s)"
    by (simp add: hit_result)
  then show "\<exists>s'. step e (Click row col) s = Inr s' \<and> combo s' = combo s + 1"
    by (simp add: step_def rerender_keeps combo_hit)
next
  assume "isPlaying s \<and> \<not> gameOver s \<and> targetCell s = Some t \<and> row < length (grid s)
      \<and> \<not> (t = (row, col) \<and> col < length (grid s ! row) \<and> grid s ! row ! col)"
  then have "handleCellClick e row col s = Inr (miss s)"
    using miss_result [of s t row col e] by blast
  then show "\<exists>s'. step e (Click row col) s = Inr s' \<and> combo s' = 0"
    by (simp add: step_def rerender_keeps combo_miss)
next
  show "\<exists>s'. step e TargetCheck s = Inr s' \<and> combo s' = combo s
        \<and> (isPlaying s \<and> \<not> gameOver s \<and> targetCell s \<noteq> None \<and> \<not> powerUpActive s
            \<longrightarrow> lives s' = lives s - 1)"
    by (simp add: step_def rerender_keeps targetCheck_fields playing_def)
qed

theorem combo_updates_witness:
  "(\<exists>s'. step env0 (Click 0 1) hitOnce = Inr s' \<and> combo s' = 2)
   \<and> (\<exists>s'. step env0 (Click 3 9) hitOnce = Inr s' \<and> combo s' = 0)
   \<and> (\<exists>s'. step env0 TargetCheck hitOnce = Inr s' \<and> combo s' = 1 \<and> lives s' = 2)"
  using combo_updates [of hitOnce 0 1 env0 "(0, 1)"] combo_updates [of hitOnce 3 9 env0 "(0, 1)"]
    hitOnce_fields
  by (simp add: numeral_2_eq_2)

text \<open>
  C6. A target check or a missed click that takes the last life sets \<open>gameOver\<close> and
  stores \<open>max highScore score\<close>, the score being final, and one that leaves a life
  does neither. Once the game is over, any sequence of clicks and timer events without a
  reset leaves \<open>gameOver\<close>, score, lives, level and high score as they are.
\<close>

theorem game_over_is_final:
  "(isPlaying s \<and> \<not> gameOver s \<and> targetCell s \<noteq> None \<and> \<not> powerUpActive s \<longrightarrow>
      (\<exists>s'. step e TargetCheck s = Inr s' \<and> lives s' = lives s - 1 \<and> score s' = score s
         \<and> gameOver s' = (lives s - 1 \<le> 0)
         \<and> highScore s' = (if lives s - 1 \<le> 0 then max (highScore s) (score s) else highScore s)))
   \<and> (isPlaying s \<and> \<not> gameOver s \<and> targetCell s = Some t \<and> row < length (grid s)
        \<and> \<not> (t = (row, col) \<and> col < length (grid s ! row) \<and> grid s ! row ! col)
        \<and> \<not> powerUpActive s \<longrightarrow>
      (\<exists>s'. step e (Click row col) s = Inr s' \<and> lives s' = lives s - 1 \<and> score s' = score s
         \<and> gameOver s' = (lives s - 1 \<le> 0)
         \<and> highScore s' = (if lives s - 1 \<le> 0 then max (highScore s) (score s) else highScore s)))
   \<and> (gameOver s \<and> (\<forall>x\<in>set tr. snd x \<noteq> NewGame) \<longrightarrow>
      (\<exists>s'. run tr s = Inr s' \<and> gameOver s' \<and> score s' = score s \<and> lives s' = lives s
         \<and> level s' = level s \<and> highScore s' = highScore s))"
proof (intro conjI impI)
  assume "isPlaying s \<and> \<not> gameOver s \<and> targetCell s \<noteq> None \<and> \<not> powerUpActive s"
  then show "\<exists>s'. step e TargetCheck s = Inr s' \<and> lives s' = lives s - 1 \<and> score s' = score s
         \<and> gameOver s' = (lives s - 1 \<le> 0)
         \<and> highScore s' = (if lives s - 1 \<le> 0 then max (highScore s) (score s) else highScore s)"
    by (simp add: step_def rerender_keeps targetCheck_fields playing_def)
next
  assume a: "isPlaying s \<and> \<not> gameOver s \<and> targetCell s = Some t \<and> row < length (grid s)
        \<and> \<not> (t = (row, col) \<and> col < length (grid s ! row) \<and> grid s ! row ! col)
        \<and> \<not> powerUpActive s"
  then have "handleCellClick e row col s = Inr (miss s)"
    using miss_result [of s t row col e] by blast
  with a show "\<exists>s'. step e (Click row col) s = Inr s' \<and> lives s' = lives s - 1 \<and> score s' = score s
         \<and> gameOver s' = (lives s - 1 \<le> 0)
         \<and> highScore s' = (if lives s - 1 \<le> 0 then max (highScore s) (score s) else highScore s)"
    by (simp add: step_def rerender_keeps miss_fields lives_miss)
next
  assume "gameOver s \<and> (\<forall>x\<in>set tr. snd x \<noteq> NewGame)"
  then show "\<exists>s'. run tr s = Inr s' \<and> gameOver s' \<and> score s' = score s \<and> lives s' = lives s
         \<and> level s' = level s \<and> highScore s' = highScore s"
    using run_when_over by blast
qed

theorem game_over_is_final_witness:
  "(\<exists>s'. step env0 TargetCheck lastLife = Inr s' \<and> lives s' = 0 \<and> score s' = 2400 \<and> gameOver s'
       \<and> highScore s' = 2400)
   \<and> (\<exists>s'. step env0 (Click 0 7) lastLife = Inr s' \<and> lives s' = 0 \<and> score s' = 2400 \<and> gameOver s'
       \<and> highScore s' = 2400)
   \<and> (\<exists>s'. run [(env0, Click 0 1), (env0, TargetCheck), (env0, WaveTick), (env0, PowerUpRoll),
               (env0, TogglePlay), (env0, PowerUpOff), (env0, ColorTick)] overGame = Inr s'
       \<and> gameOver s' \<and> score s' = 2400 \<and> lives s' = 0 \<and> level s' = 3 \<and> highScore s' = 2400)"
  using game_over_is_final [of lastLife env0 "(0, 1)" 0 7 "[]"]
    game_over_is_final [of overGame env0 "(0, 1)" 0 7 "[(env0, Click 0 1), (env0, TargetCheck),
      (env0, WaveTick), (env0, PowerUpRoll), (env0, TogglePlay), (env0, PowerUpOff),
      (env0, ColorTick)]"]
    lastLife_fields overGame_fields
  by simp

text \<open>
  C8. A reset gives the unlit grid, score 0, level 1, combo 0, three lives, no game over,
  speed 100, the NORMAL pattern, difficulty 1 and no shield, and keeps the high score;
  so does the New Game event of the engine.
\<close>

theorem reset_restores:
  "grid (initializeGrid s) = replicate 15 (replicate 20 False)
   \<and> score (initializeGrid s) = 0 \<and> level (initializeGrid s) = 1 \<and> combo (initializeGrid s) = 0
   \<and> lives (initializeGrid s) = 3 \<and> \<not> gameOver (initializeGrid s)
   \<and> speed (initializeGrid s) = 100 \<and> wavePattern (initializeGrid s) = NORMAL
   \<and> difficulty (initializeGrid s) = 1 \<and> \<not> powerUpActive (initializeGrid s)
   \<and> highScore (initializeGrid s) = highScore s
   \<and> (\<exists>s'. step e NewGame s = Inr s'
        \<and> grid s' = replicate 15 (replicate 20 False)
        \<and> score s' = 0 \<and> level s' = 1 \<and> combo s' = 0 \<and> lives s' = 3 \<and> \<not> gameOver s'
        \<and> speed s' = 100 \<and> wavePattern s' = NORMAL \<and> difficulty s' = 1 \<and> \<not> powerUpActive s'
        \<and> highScore s' = highScore s)"
  by (simp add: step_def rerender_keeps initializeGrid_def createEmptyGrid_def rows_def cols_def)

theorem reset_restores_witness:
  "grid (initializeGrid overGame) = replicate 15 (replicate 20 False)
   \<and> score (initializeGrid overGame) = 0 \<and> level (initializeGrid overGame) = 1
   \<and> combo (initializeGrid overGame) = 0 \<and> lives (initializeGrid overGame) = 3
   \<and> \<not> gameOver (initializeGrid overGame) \<and> speed (initializeGrid overGame) = 100
   \<and> wavePattern (initializeGrid overGame) = NORMAL \<and> difficulty (initializeGrid overGame) = 1
   \<and> \<not> powerUpActive (initializeGrid overGame) \<and> highScore (initializeGrid overGame) = 2400"
  using reset_restores [of overGame env0] overGame_fields by simp

text \<open>
  C9. A missed click changes nothing but combo, lives, \<open>gameOver\<close> and the high score,
  and a target check nothing but lives, the target, \<open>gameOver\<close> and the high score:
  score, level, pattern, speed and difficulty stay, and the high score changes only when
  the game ends, to \<open>max highScore score\<close>.
\<close>

theorem miss_frame:
  "(isPlaying s \<and> \<not> gameOver s \<and> targetCell s = Some t \<and> row < length (grid s)
      \<and> \<not> (t = (row, col) \<and> col < length (grid s ! row) \<and> grid s ! row ! col) \<longrightarrow>
     (\<exists>s'. handleCellClick e row col s = Inr s'
        \<and> score s' = score s \<and> level s' = level s \<and> wavePattern s' = wavePattern s
        \<and> speed s' = speed s \<and> difficulty s' = difficulty s
        \<and> highScore s' = (if gameOver s' then max (highScore s) (score s) else highScore s)
        \<and> s'\<lparr>combo := combo s, lives := lives s, gameOver := gameOver s,
              highScore := highScore s\<rparr> = s))
   \<and> (\<not> gameOver s \<longrightarrow>
       score (targetCheck e s) = score s \<and> level (targetCheck e s) = level s
     \<and> wavePattern (targetCheck e s) = wavePattern s \<and> speed (targetCheck e s) = speed s
     \<and> difficulty (targetCheck e s) = difficulty s
     \<and> highScore (targetCheck e s)
         = (if gameOver (targetCheck e s) then max (highScore s) (score s) else highScore s)
     \<and> (targetCheck e s)\<lparr>lives := lives s, targetCell := targetCell s,
          targetGen := targetGen s, gameOver := gameOver s, highScore := highScore s\<rparr> = s)"
proof (rule conjI; rule impI)
  assume a: "isPlaying s \<and> \<not> gameOver s \<and> targetCell s = Some t \<and> row < length (grid s)
      \<and> \<not> (t = (row, col) \<and> col < length (grid s ! row) \<and> grid s ! row ! col)"
  then have m: "handleCellClick e row col s = Inr (miss s)"
    using miss_result [of s t row col e] by blast
  have f: "score (miss s) = score s \<and> level (miss s) = level s
      \<and> wavePattern (miss s) = wavePattern s \<and> speed (miss s) = speed s
      \<and> difficulty (miss s) = difficulty s"
    by (simp add: miss_fields miss_keeps)
  have h: "highScore (miss s)
      = (if gameOver (miss s) then max (highScore s) (score s) else highScore s)"
    using a by (simp add: miss_fields)
  from m f h miss_frame_eq [of s]
  show "\<exists>s'. handleCellClick e row col s = Inr s'
        \<and> score s' = score s \<and> level s' = level s \<and> wavePattern s' = wavePattern s
        \<and> speed s' = speed s \<and> difficulty s' = difficulty s
        \<and> highScore s' = (if gameOver s' then max (highScore s) (score s) else highScore s)
        \<and> s'\<lparr>combo := combo s, lives := lives s, gameOver := gameOver s,
              highScore := highScore s\<rparr> = s"
    by blast
next
  assume a: "\<not> gameOver s"
  have f: "score (targetCheck e s) = score s \<and> level (targetCheck e s) = level s
     \<and> wavePattern (targetCheck e s) = wavePattern s \<and> speed (targetCheck e s) = speed s
     \<and> difficulty (targetCheck e s) = difficulty s"
    by (simp add: targetCheck_fields targetCheck_frame)
  have h: "highScore (targetCheck e s)
         = (if gameOver (targetCheck e s) then max (highScore s) (score s) else highScore s)"
    using a by (simp add: targetCheck_fields)
  from f h targetCheck_frame_eq [of s e]
  show "score (targetCheck e s) = score s \<and> level (targetCheck e s) = level s
     \<and> wavePattern (targetCheck e s) = wavePattern s \<and> speed (targetCheck e s) = speed s
     \<and> difficulty (targetCheck e s) = difficulty s
     \<and> highScore (targetCheck e s)
         = (if gameOver (targetCheck e s) then max (highScore s) (score s) else highScore s)
     \<and> (targetCheck e s)\<lparr>lives := lives s, targetCell := targetCell s,
          targetGen := targetGen s, gameOver := gameOver s, highScore := highScore s\<rparr> = s"
    by blast
qed

theorem miss_frame_witness:
  "(\<exists>s'. handleCellClick env0 0 7 lastLife = Inr s' \<and> score s' = 2400 \<and> level s' = 3
      \<and> highScore s' = 2400 \<and> gameOver s')
   \<and> score (targetCheck env0 hitOnce) = 100 \<and> level (targetCheck env0 hitOnce) = 1
   \<and> highScore (targetCheck env0 hitOnce) = 0 \<and> \<not> gameOver (targetCheck env0 hitOnce)"
proof -
  have "gameOver (miss lastLife)" "\<not> gameOver (targetCheck env0 hitOnce)"
    by (simp_all add: miss_fields targetCheck_fields lastLife_fields hitOnce_fields)
  moreover have "handleCellClick env0 0 7 lastLife = Inr (miss lastLife)"
    using miss_result [of lastLife "(0, 1)" 0 7 env0] lastLife_fields by simp
  moreover have "level lastLife = 3" "score hitOnce = 100" "level hitOnce = 1"
    "highScore hitOnce = 0"
    by (simp_all add: lastLife_def midGame_def initial_def hitOnce_def)
  ultimately show ?thesis
    using miss_frame [of lastLife "(0, 1)" 0 7 env0] miss_frame [of hitOnce "(0, 1)" 0 7 env0]
      lastLife_fields hitOnce_fields
    by simp
qed

subsection \<open>The combo\<close>

lemma cellLit_True:
  "cellLit g row col = Inr True \<longleftrightarrow> row < length g \<and> col < length (g ! row) \<and> g ! row ! col"
  by (simp add: cellLit_def)

lemma clicks_all_hits:
  assumes "allHits cs s"
  shows "\<exists>s'. clicks cs s = Inr s' \<and> combo s' = combo s + length cs"
  using assms
proof (induction cs arbitrary: s)
  case Nil
  then show ?case by simp
next
  case (Cons c cs)
  obtain e row col where c: "c = (e, row, col)" by (cases c)
  with Cons.prems have h: "handleCellClick e row col s = Inr (hit e s)" and a: "allHits cs (hit e s)"
    by (simp_all add: hit_result cellLit_True)
  from Cons.IH [OF a] obtain s' where "clicks cs (hit e s) = Inr s'"
    "combo s' = combo (hit e s) + length cs"
    by blast
  with h c show ?case by (simp add: combo_hit)
qed

lemma seven_hits: "allHits (replicate 7 (env0, 0, 1)) freshWave"
  by code_simp

text \<open>
  C10. The stored combo is not clamped: after any run of consecutive hits it has grown
  by the number of hits, so from combo 0 it is \<open>n\<close> after \<open>n\<close> hits. Only the factor
  \<open>min (combo + 1) 5\<close> of the points is capped: once four hits are behind, it is 5 for
  every hit that follows.
\<close>

theorem combo_not_clamped:
  assumes "allHits cs s"
  shows "\<exists>s'. clicks cs s = Inr s' \<and> combo s' = combo s + length cs
     \<and> comboMultiplier s' = min (combo s + length cs + 1) 5
     \<and> (4 \<le> combo s + length cs \<longrightarrow>
          comboMultiplier s' = 5 \<and> points s' = 500 * of_nat (level s') * difficulty s')"
proof -
  from assms obtain s' where s': "clicks cs s = Inr s'" "combo s' = combo s + length cs"
    using clicks_all_hits by blast
  then have "comboMultiplier s' = min (combo s + length cs + 1) 5"
    by (simp add: comboMultiplier_def)
  moreover have "4 \<le> combo s + length cs \<longrightarrow>
          comboMultiplier s' = 5 \<and> points s' = 500 * of_nat (level s') * difficulty s'"
    using s' by (simp add: comboMultiplier_def points_def)
  ultimately show ?thesis using s' by blast
qed

text \<open>Seven hits in a row from the first wave: the combo is 7, the factor 5.\<close>

theorem combo_not_clamped_witness:
  "\<exists>s'. clicks (replicate 7 (env0, 0, 1)) freshWave = Inr s' \<and> combo s' = 7
      \<and> comboMultiplier s' = 5"
proof -
  have "combo freshWave = 0" by (simp add: freshWave_def initial_def)
  with combo_not_clamped [OF seven_hits] show ?thesis by auto
qed

subsection \<open>The wave generator\<close>

lemma forRows_empty:
  assumes "\<And>i. i < rows \<Longrightarrow> f i (replicate cols False) = r"
  shows "forRows f createEmptyGrid = Inr (replicate rows r)"
proof -
  have "map (\<lambda>i. f i (replicate rows (replicate cols False) ! i)) [0..<rows] = replicate rows r"
    by (rule nth_equalityI) (simp_all add: assms)
  then show ?thesis
    by (simp add: forRows_def createEmptyGrid_def)
qed

lemma splitRow_18:
  "splitRow 18 (replicate cols False) = replicate 4 True @ replicate 14 False @ replicate 2 True"
  by code_simp

lemma splitRow_18_lit: "litCols (replicate 4 True @ replicate 14 False @ replicate 2 True) = [0, 1, 2, 3, 18, 19]"
  by code_simp

lemma specSplit_18: "set (specSplitCols 18) = {0, 1, 2, 3, 16, 17, 18, 19}"
  by code_simp

lemma normalRow_left_19:
  "normalRow (- 1) 19 (replicate cols False) = True # replicate 19 False"
  by code_simp

lemma left_19_lit: "litCols (True # replicate 19 False) = [0]"
  by code_simp

lemma specNormal_left_19: "set (specNormalCols (- 1) 19) = {0, 15, 16, 17, 18, 19}"
  by code_simp

lemma setLit_length: "c < int (length r) \<Longrightarrow> length (setLit r c) = length r"
  by (simp add: setLit_def)

lemma setLit_nth:
  "c < int (length r) \<Longrightarrow> k < length r \<Longrightarrow> setLit r c ! k = (r ! k \<or> int k = c)"
  by (auto simp add: setLit_def nth_list_update)

lemma fold_setLit:
  assumes "\<forall>d\<in>set cs. d < int (length r)"
  shows "length (fold (\<lambda>c acc. setLit acc c) cs r) = length r
     \<and> (\<forall>k<length r. fold (\<lambda>c acc. setLit acc c) cs r ! k = (r ! k \<or> int k \<in> set cs))"
  using assms
proof (induction cs arbitrary: r)
  case Nil
  then show ?case by simp
next
  case (Cons c cs)
  then have c: "c < int (length r)" by simp
  then have l: "length (setLit r c) = length r" by (rule setLit_length)
  with Cons.prems have "\<forall>d\<in>set cs. d < int (length (setLit r c))" by simp
  from Cons.IH [OF this] l c show ?case
    by (auto simp add: setLit_nth)
qed

lemma js_rem_less:
  assumes "0 < b"
  shows "js_rem a b < b"
proof (cases "a < 0")
  case True
  from assms have "0 \<le> (- a) mod b" by simp
  with assms have "- ((- a) mod b) < b" by linarith
  with True assms show ?thesis by (simp add: js_rem_def sgn_if)
next
  case False
  from assms have "abs a mod b < b" by simp
  with False assms show ?thesis by (simp add: js_rem_def sgn_if)
qed

lemma js_rem_nonneg: "0 \<le> a \<Longrightarrow> 0 < b \<Longrightarrow> js_rem a b = a mod b"
  by (simp add: js_rem_def sgn_if)

lemma js_rem_small_neg: "a < 0 \<Longrightarrow> - b < a \<Longrightarrow> js_rem a b = a"
  by (simp add: js_rem_def sgn_if)

lemma litCols_set: "set (litCols r) = {k. k < length r \<and> r ! k}"
  by (auto simp add: litCols_def)

lemma row_of_cols:
  assumes "\<forall>j<waveWidth. f j < int cols"
  shows "set (litCols (fold (\<lambda>j acc. setLit acc (f j)) [0..<waveWidth] (replicate cols False)))
     = {k. k < cols \<and> (\<exists>j<waveWidth. int k = f j)}"
proof -
  have e: "fold (\<lambda>j acc. setLit acc (f j)) [0..<waveWidth] (replicate cols False)
      = fold (\<lambda>c acc. setLit acc c) (map f [0..<waveWidth]) (replicate cols False)"
    by (simp add: fold_map comp_def)
  have "\<forall>d\<in>set (map f [0..<waveWidth]). d < int (length (replicate cols False))"
    using assms by auto
  from fold_setLit [OF this] show ?thesis
    unfolding e litCols_set by fastforce
qed

lemma normalRow_right:
  "set (litCols (normalRow 1 p (replicate cols False)))
     = (\<lambda>j. (p + j) mod cols) ` {0..<waveWidth}"
proof -
  have r: "js_rem (int p + int j) (int cols) = int ((p + j) mod cols)" for j
    by (simp add: js_rem_nonneg cols_def zmod_int)
  have less: "\<forall>j<waveWidth. js_rem (int p + int j) (int cols) < int cols"
    by (simp add: js_rem_less cols_def)
  have "set (litCols (normalRow 1 p (replicate cols False)))
      = {k. k < cols \<and> (\<exists>j<waveWidth. int k = int ((p + j) mod cols))}"
    using row_of_cols [OF less] by (simp add: normalRow_def Let_def r)
  also have "\<dots> = (\<lambda>j. (p + j) mod cols) ` {0..<waveWidth}"
    by (auto simp add: cols_def)
  finally show ?thesis .
qed

lemma normalRow_left:
  assumes "dir \<noteq> 1" "p < cols"
  shows "set (litCols (normalRow dir p (replicate cols False)))
     = {cols - 1 - (p + j) | j. j < waveWidth \<and> p + j < cols}"
proof -
  let ?f = "\<lambda>j. js_rem ((int cols - 1) - (int p + int j)) (int cols)"
  have less: "\<forall>j<waveWidth. ?f j < int cols"
    by (simp add: js_rem_less cols_def)
  have pos: "?f j = int (cols - 1 - (p + j))" if "p + j < cols" for j
    using that by (simp add: js_rem_nonneg cols_def of_nat_diff)
  have neg: "?f j < 0" if "\<not> p + j < cols" "j < waveWidth" for j
    using that assms(2) by (simp add: js_rem_small_neg cols_def waveWidth_def)
  have "set (litCols (normalRow dir p (replicate cols False)))
      = {k. k < cols \<and> (\<exists>j<waveWidth. int k = ?f j)}"
    using assms(1) row_of_cols [OF less] by (simp add: normalRow_def Let_def)
  also have "\<dots> = {cols - 1 - (p + j) | j. j < waveWidth \<and> p + j < cols}"
  proof (rule set_eqI, rule iffI)
    fix k
    assume "k \<in> {k. k < cols \<and> (\<exists>j<waveWidth. int k = ?f j)}"
    then obtain j where j: "k < cols" "j < waveWidth" "int k = ?f j" by blast
    with neg [of j] have c: "p + j < cols" by force
    with j pos [of j] have "int k = int (cols - 1 - (p + j))" by simp
    then have "k = cols - 1 - (p + j)" by (simp only: of_nat_eq_iff)
    with j c show "k \<in> {cols - 1 - (p + j) | j. j < waveWidth \<and> p + j < cols}"
      by blast
  next
    fix k
    assume "k \<in> {cols - 1 - (p + j) | j. j < waveWidth \<and> p + j < cols}"
    then obtain j where j: "k = cols - 1 - (p + j)" "j < waveWidth" "p + j < cols" by blast
    with pos [of j] have "int k = ?f j" "k < cols" by simp_all
    with j show "k \<in> {k. k < cols \<and> (\<exists>j<waveWidth. int k = ?f j)}"
      by blast
  qed
  finally show ?thesis .
qed


lemma pairs_of_cols:
  assumes "\<forall>j<waveWidth. f j < int cols \<and> g j < int cols"
  shows "set (litCols (fold (\<lambda>j acc. setLit (setLit acc (f j)) (g j)) [0..<waveWidth]
        (replicate cols False)))
     = {k. k < cols \<and> (\<exists>j<waveWidth. int k = f j \<or> int k = g j)}"
proof -
  have "fold (\<lambda>j acc. setLit (setLit acc (f j)) (g j)) js r
      = fold (\<lambda>c acc. setLit acc c) (concat (map (\<lambda>j. [f j, g j]) js)) r" for js r
    by (induction js arbitrary: r) simp_all
  then have e: "fold (\<lambda>j acc. setLit (setLit acc (f j)) (g j)) [0..<waveWidth] (replicate cols False)
      = fold (\<lambda>c acc. setLit acc c) (concat (map (\<lambda>j. [f j, g j]) [0..<waveWidth]))
          (replicate cols False)" .
  have "\<forall>d\<in>set (concat (map (\<lambda>j. [f j, g j]) [0..<waveWidth])).
      d < int (length (replicate cols False))"
    using assms by auto
  from fold_setLit [OF this] show ?thesis
    unfolding e litCols_set by fastforce
qed

lemma splitRow_cols:
  assumes "p < cols"
  shows "set (litCols (splitRow p (replicate cols False)))
     = (\<lambda>j. (p + j) mod cols) ` {0..<waveWidth}
       \<union> {cols - 1 - (p + j) | j. j < waveWidth \<and> p + j < cols}"
proof -
  let ?f = "\<lambda>j. js_rem (int p + int j) (int cols)"
  let ?g = "\<lambda>j. js_rem ((int cols - 1) - (int p + int j)) (int cols)"
  have less: "\<forall>j<waveWidth. ?f j < int cols \<and> ?g j < int cols"
    by (simp add: js_rem_less cols_def)
  have r: "?f j = int ((p + j) mod cols)" for j
    by (simp add: js_rem_nonneg cols_def zmod_int)
  have pos: "?g j = int (cols - 1 - (p + j))" if "p + j < cols" for j
    using that by (simp add: js_rem_nonneg cols_def of_nat_diff)
  have neg: "?g j < 0" if "\<not> p + j < cols" "j < waveWidth" for j
    using that assms by (simp add: js_rem_small_neg cols_def waveWidth_def)
  have "set (litCols (splitRow p (replicate cols False)))
      = {k. k < cols \<and> (\<exists>j<waveWidth. int k = ?f j \<or> int k = ?g j)}"
    using pairs_of_cols [OF less] by (simp add: splitRow_def Let_def)
  also have "\<dots> = (\<lambda>j. (p + j) mod cols) ` {0..<waveWidth}
       \<union> {cols - 1 - (p + j) | j. j < waveWidth \<and> p + j < cols}"
  proof (rule set_eqI, rule iffI)
    fix k
    assume "k \<in> {k. k < cols \<and> (\<exists>j<waveWidth. int k = ?f j \<or> int k = ?g j)}"
    then obtain j where j: "k < cols" "j < waveWidth" "int k = ?f j \<or> int k = ?g j" by blast
    from j(3) show "k \<in> (\<lambda>j. (p + j) mod cols) ` {0..<waveWidth}
       \<union> {cols - 1 - (p + j) | j. j < waveWidth \<and> p + j < cols}"
    proof
      assume "int k = ?f j"
      then have "k = (p + j) mod cols" by (simp only: r of_nat_eq_iff)
      with j(2) show ?thesis by auto
    next
      assume g: "int k = ?g j"
      with neg [of j] j(2) have c: "p + j < cols" by force
      with g pos [of j] have "int k = int (cols - 1 - (p + j))" by simp
      then have "k = cols - 1 - (p + j)" by (simp only: of_nat_eq_iff)
      with j(2) c show ?thesis by blast
    qed
  next
    fix k
    assume "k \<in> (\<lambda>j. (p + j) mod cols) ` {0..<waveWidth}
       \<union> {cols - 1 - (p + j) | j. j < waveWidth \<and> p + j < cols}"
    then consider j where "j < waveWidth" "k = (p + j) mod cols"
      | j where "j < waveWidth" "p + j < cols" "k = cols - 1 - (p + j)"
      by auto
    then show "k \<in> {k. k < cols \<and> (\<exists>j<waveWidth. int k = ?f j \<or> int k = ?g j)}"
    proof cases
      case 1
      then have "int k = ?f j" by (simp only: r)
      moreover from 1 have "k < cols" by (simp add: cols_def)
      ultimately show ?thesis using 1 by blast
    next
      case 2
      with pos [of j] have "int k = ?g j" "k < cols" by simp_all
      with 2 show ?thesis by blast
    qed
  qed
  finally show ?thesis .
qed

lemma wave_rows:
  "wavePattern s = NORMAL \<Longrightarrow> updateWavePattern e s p createEmptyGrid
     = Inr (replicate rows (normalRow (direction s) p (replicate cols False)))"
  "wavePattern s = SPLIT \<Longrightarrow> updateWavePattern e s p createEmptyGrid
     = Inr (replicate rows (splitRow p (replicate cols False)))"
  by (simp_all add: updateWavePattern_def forRows_empty)

lemma mirror_low:
  assumes "p + waveWidth \<le> cols"
  shows "(\<lambda>c. cols - 1 - c) ` set (litCols (splitRow p (replicate cols False)))
     = set (litCols (splitRow p (replicate cols False)))"
proof -
  let ?A = "(\<lambda>j. p + j) ` {0..<waveWidth}"
  let ?B = "(\<lambda>j. cols - 1 - (p + j)) ` {0..<waveWidth}"
  from assms have p: "p < cols" by (simp add: waveWidth_def)
  have "(\<lambda>j. (p + j) mod cols) ` {0..<waveWidth} = ?A"
    using assms by (intro image_cong) simp_all
  moreover have "{cols - 1 - (p + j) | j. j < waveWidth \<and> p + j < cols} = ?B"
    using assms by auto
  ultimately have l: "set (litCols (splitRow p (replicate cols False))) = ?A \<union> ?B"
    by (simp add: splitRow_cols [OF p])
  have "(\<lambda>c. cols - 1 - c) ` ?A = ?B"
    by (simp only: image_image)
  moreover have "(\<lambda>c. cols - 1 - c) ` ?B = ?A"
    unfolding image_image using assms by (intro image_cong) simp_all
  ultimately show ?thesis
    unfolding l image_Un by blast
qed

lemma mirror_high:
  "(\<lambda>c. cols - 1 - c) ` set (litCols (splitRow 15 (replicate cols False)))
     = set (litCols (splitRow 15 (replicate cols False)))"
  "(\<lambda>c. cols - 1 - c) ` set (litCols (splitRow 16 (replicate cols False)))
     = set (litCols (splitRow 16 (replicate cols False)))"
  "(\<lambda>c. cols - 1 - c) ` set (litCols (splitRow 17 (replicate cols False)))
     = set (litCols (splitRow 17 (replicate cols False)))"
  by code_simp+

lemma mirror_below_18:
  assumes "p < 18"
  shows "(\<lambda>c. cols - 1 - c) ` set (litCols (splitRow p (replicate cols False)))
     = set (litCols (splitRow p (replicate cols False)))"
proof -
  from assms consider "p + waveWidth \<le> cols" | "p = 15" | "p = 16" | "p = 17"
    unfolding waveWidth_def cols_def by linarith
  then show ?thesis
    by cases (simp_all only: mirror_low mirror_high)
qed

text \<open>
  C3 does not hold of the code. With the SPLIT pattern at sweep position 18 every row has
  columns 0, 1, 2, 3, 18 and 19 lit: column 2 is lit and its mirror image 17 is not. The
  mirrored index \<open>(cols - 1) - (position + j)\<close> is negative for \<open>j \<ge> 2\<close>, the operator
  \<open>%\<close> keeps it negative, and the write lights no cell; the bands of the specification
  would be 0 to 3 and 16 to 19.
\<close>

theorem split_not_mirrored:
  assumes "wavePattern s = SPLIT" "i < rows"
  shows "\<exists>g. updateWavePattern e s 18 createEmptyGrid = Inr g
     \<and> litCols (g ! i) = [0, 1, 2, 3, 18, 19]
     \<and> g ! i ! 2 \<and> \<not> g ! i ! (cols - 1 - 2)
     \<and> set (specSplitCols 18) = {0, 1, 2, 3, 16, 17, 18, 19}"
proof -
  have "updateWavePattern e s 18 createEmptyGrid
      = Inr (replicate rows (replicate 4 True @ replicate 14 False @ replicate 2 True))"
    using assms(1) by (simp add: updateWavePattern_def forRows_empty splitRow_18)
  moreover have "(replicate 4 True @ replicate 14 False @ replicate 2 True) ! 2"
    "\<not> (replicate 4 True @ replicate 14 False @ replicate 2 True) ! (cols - 1 - 2)"
    by (simp_all add: nth_append cols_def)
  ultimately show ?thesis
    using assms(2) by (simp add: splitRow_18_lit specSplit_18)
qed

theorem split_not_mirrored_witness:
  "\<exists>g. updateWavePattern env0 splitGame 18 createEmptyGrid = Inr g
     \<and> litCols (g ! 0) = [0, 1, 2, 3, 18, 19] \<and> g ! 0 ! 2 \<and> \<not> g ! 0 ! 17"
proof -
  have "wavePattern splitGame = SPLIT" "0 < rows"
    by (simp_all add: splitGame_def rows_def)
  from split_not_mirrored [OF this, of env0] show ?thesis
    by (auto simp add: cols_def)
qed

text \<open>
  C4 does not hold of the code for the direction -1. With the NORMAL pattern at sweep
  position 19 every row has column 0 lit and no other, where the specification gives
  columns 0 and 15 to 19: the mirrored indices -1 to -5 light no cell.
\<close>

theorem normal_left_not_wrapped:
  assumes "wavePattern s = NORMAL" "direction s = - 1" "i < rows"
  shows "\<exists>g. updateWavePattern e s 19 createEmptyGrid = Inr g
     \<and> litCols (g ! i) = [0]
     \<and> set (specNormalCols (direction s) 19) = {0, 15, 16, 17, 18, 19}"
proof -
  have "updateWavePattern e s 19 createEmptyGrid = Inr (replicate rows (True # replicate 19 False))"
    using assms(1,2) by (simp add: updateWavePattern_def forRows_empty normalRow_left_19)
  then show ?thesis
    using assms(2,3) by (simp add: left_19_lit specNormal_left_19)
qed

theorem normal_left_not_wrapped_witness:
  "\<exists>g. updateWavePattern env0 leftGame 19 createEmptyGrid = Inr g \<and> litCols (g ! 0) = [0]"
proof -
  have "wavePattern leftGame = NORMAL" "direction leftGame = - 1" "0 < rows"
    by (simp_all add: leftGame_def initial_def rows_def)
  from normal_left_not_wrapped [OF this, of env0] show ?thesis
    by auto
qed

subsection \<open>What the generator lights\<close>

lemma row_nth: "i < rows \<Longrightarrow> replicate rows r ! i = r"
  by simp

lemma guarded_fold_length:
  fixes f :: "nat \<Rightarrow> int"
  assumes "length r = cols"
  shows "length (fold (\<lambda>j acc. let col = f j in
      if col \<ge> 0 \<and> col < int cols then setLit acc col else acc) js r) = cols"
  using assms by (induction js arbitrary: r) (simp_all add: Let_def setLit_length)

lemma offsetRow_length: "length r = cols \<Longrightarrow> length (offsetRow off p r) = cols"
  unfolding offsetRow_def by (rule guarded_fold_length)

lemma normalRow_length: "length (normalRow dir p (replicate cols False)) = cols"
proof -
  let ?f = "\<lambda>j. if dir = 1 then js_rem (int p + int j) (int cols)
                  else js_rem ((int cols - 1) - (int p + int j)) (int cols)"
  have e: "normalRow dir p (replicate cols False)
      = fold (\<lambda>c acc. setLit acc c) (map ?f [0..<waveWidth]) (replicate cols False)"
    by (simp add: normalRow_def Let_def fold_map comp_def)
  have "\<forall>d\<in>set (map ?f [0..<waveWidth]). d < int (length (replicate cols False))"
    by (auto simp add: js_rem_less cols_def)
  from fold_setLit [OF this] show ?thesis
    unfolding e by simp
qed

lemma splitRow_length: "length (splitRow p (replicate cols False)) = cols"
proof -
  have "length (fold (\<lambda>j acc. setLit (setLit acc (f j)) (g j)) js r) = length r"
    if "\<forall>j. f j < int (length r) \<and> g j < int (length r)" for f g :: "nat \<Rightarrow> int" and js r
    using that by (induction js arbitrary: r) (simp_all add: setLit_length)
  then show ?thesis
    unfolding splitRow_def Let_def by (simp add: js_rem_less cols_def)
qed

text \<open>
  With the wave running to the right, the NORMAL pattern lights the columns
  \<open>(p + j) mod cols\<close> for \<open>j < waveWidth\<close> in every row, at every sweep position.
\<close>

theorem normal_right_cols:
  assumes "wavePattern s = NORMAL" "direction s = 1" "i < rows"
  shows "\<exists>g. updateWavePattern e s p createEmptyGrid = Inr g
     \<and> set (litCols (g ! i)) = (\<lambda>j. (p + j) mod cols) ` {0..<waveWidth}"
  using assms by (simp add: wave_rows normalRow_right)

theorem normal_right_cols_witness:
  "\<exists>g. updateWavePattern env0 freshWave 17 createEmptyGrid = Inr g
     \<and> set (litCols (g ! 0)) = {17, 18, 19, 0, 1, 2}"
proof -
  have "wavePattern freshWave = NORMAL" "direction freshWave = 1" "0 < rows"
    by (simp_all add: freshWave_def initial_def rows_def)
  from normal_right_cols [OF this, of env0 17]
  have "\<exists>g. updateWavePattern env0 freshWave 17 createEmptyGrid = Inr g
     \<and> set (litCols (g ! 0)) = (\<lambda>j. (17 + j) mod cols) ` {0..<waveWidth}" .
  moreover have "(\<lambda>j. (17 + j) mod cols) ` {0..<waveWidth} = {17, 18, 19, 0, 1, 2}"
    by code_simp
  ultimately show ?thesis by simp
qed

text \<open>
  With the wave running to the left, the NORMAL pattern lights the mirrored columns
  \<open>cols - 1 - (p + j)\<close> that are not negative, and nothing in their place when they are:
  six columns up to position 14, then one fewer with each position.
\<close>

theorem normal_left_cols:
  assumes "wavePattern s = NORMAL" "direction s \<noteq> 1" "p < cols" "i < rows"
  shows "\<exists>g. updateWavePattern e s p createEmptyGrid = Inr g
     \<and> set (litCols (g ! i)) = {cols - 1 - (p + j) | j. j < waveWidth \<and> p + j < cols}"
  using assms by (simp add: wave_rows normalRow_left)

theorem normal_left_cols_witness:
  "\<exists>g. updateWavePattern env0 leftGame 17 createEmptyGrid = Inr g
     \<and> set (litCols (g ! 0)) = {2, 1, 0}"
proof -
  have "wavePattern leftGame = NORMAL" "direction leftGame \<noteq> 1" "17 < cols" "0 < rows"
    by (simp_all add: leftGame_def initial_def rows_def cols_def)
  from normal_left_cols [OF this, of env0]
  have "\<exists>g. updateWavePattern env0 leftGame 17 createEmptyGrid = Inr g
     \<and> set (litCols (g ! 0)) = {cols - 1 - (17 + j) | j. j < waveWidth \<and> 17 + j < cols}" .
  moreover have "{cols - 1 - (17 + j) | j. j < waveWidth \<and> 17 + j < cols} = {2, 1, 0}"
  proof -
    have "{cols - 1 - (17 + j) | j. j < waveWidth \<and> 17 + j < cols}
        = (\<lambda>j. cols - 1 - (17 + j)) ` {0..<3}"
      by (auto simp add: cols_def waveWidth_def)
    also have "\<dots> = {2, 1, 0}" by code_simp
    finally show ?thesis .
  qed
  ultimately show ?thesis by simp
qed

text \<open>
  The SPLIT pattern lights the band \<open>(p + j) mod cols\<close>, which wraps, and of the mirrored
  band the columns \<open>cols - 1 - (p + j)\<close> that are not negative.
\<close>

theorem split_cols:
  assumes "wavePattern s = SPLIT" "p < cols" "i < rows"
  shows "\<exists>g. updateWavePattern e s p createEmptyGrid = Inr g
     \<and> set (litCols (g ! i))
         = (\<lambda>j. (p + j) mod cols) ` {0..<waveWidth}
           \<union> {cols - 1 - (p + j) | j. j < waveWidth \<and> p + j < cols}"
  using assms by (simp add: wave_rows splitRow_cols)

theorem split_cols_witness:
  "\<exists>g. updateWavePattern env0 splitGame 18 createEmptyGrid = Inr g
     \<and> set (litCols (g ! 0)) = {18, 19, 0, 1, 2, 3}"
proof -
  have "wavePattern splitGame = SPLIT" "18 < cols" "0 < rows"
    by (simp_all add: splitGame_def rows_def cols_def)
  from split_cols [OF this, of env0]
  have "\<exists>g. updateWavePattern env0 splitGame 18 createEmptyGrid = Inr g
     \<and> set (litCols (g ! 0))
         = (\<lambda>j. (18 + j) mod cols) ` {0..<waveWidth}
           \<union> {cols - 1 - (18 + j) | j. j < waveWidth \<and> 18 + j < cols}" .
  moreover have "(\<lambda>j. (18 + j) mod cols) ` {0..<waveWidth} = {18, 19, 0, 1, 2, 3}"
    by code_simp
  moreover have "{cols - 1 - (18 + j) | j. j < waveWidth \<and> 18 + j < cols} = {1, 0}"
  proof -
    have "{cols - 1 - (18 + j) | j. j < waveWidth \<and> 18 + j < cols}
        = (\<lambda>j. cols - 1 - (18 + j)) ` {0..<2}"
      by (auto simp add: cols_def waveWidth_def)
    also have "\<dots> = {1, 0}" by code_simp
    finally show ?thesis .
  qed
  ultimately show ?thesis by auto
qed

text \<open>
  Up to sweep position 17 the columns lit by the SPLIT pattern are their own mirror
  image under \<open>c \<mapsto> cols - 1 - c\<close>.
\<close>

theorem split_mirrored_below_18:
  assumes "wavePattern s = SPLIT" "p < 18" "i < rows"
  shows "\<exists>g. updateWavePattern e s p createEmptyGrid = Inr g
     \<and> (\<lambda>c. cols - 1 - c) ` set (litCols (g ! i)) = set (litCols (g ! i))"
proof (intro exI conjI)
  show "updateWavePattern e s p createEmptyGrid
      = Inr (replicate rows (splitRow p (replicate cols False)))"
    using assms(1) by (rule wave_rows)
  show "(\<lambda>c. cols - 1 - c) ` set (litCols (replicate rows (splitRow p (replicate cols False)) ! i))
      = set (litCols (replicate rows (splitRow p (replicate cols False)) ! i))"
    unfolding row_nth [OF assms(3)] using assms(2) by (rule mirror_below_18)
qed

theorem split_mirrored_below_18_witness:
  "\<exists>g. updateWavePattern env0 splitGame 16 createEmptyGrid = Inr g
     \<and> (\<lambda>c. cols - 1 - c) ` set (litCols (g ! 0)) = set (litCols (g ! 0))"
proof -
  have "wavePattern splitGame = SPLIT" "(16::nat) < 18" "0 < rows"
    by (simp_all add: splitGame_def rows_def)
  from split_mirrored_below_18 [OF this, of env0] show ?thesis .
qed

text \<open>
  Whatever the pattern, the position and the draws, the generator returns a grid of
  \<open>rows\<close> rows of \<open>cols\<close> cells: no write lands outside a row.
\<close>

theorem wave_grid_shape:
  "\<exists>g. updateWavePattern e s p createEmptyGrid = Inr g \<and> length g = rows
     \<and> list_all (\<lambda>r. length r = cols) g"
proof (cases "wavePattern s")
  case NORMAL
  then show ?thesis
    by (simp add: updateWavePattern_def forRows_empty normalRow_length list_all_length)
next
  case SPLIT
  then show ?thesis
    by (simp add: updateWavePattern_def forRows_empty splitRow_length list_all_length)
next
  case ZIGZAG
  then show ?thesis
    by (simp add: updateWavePattern_def forRows_def createEmptyGrid_def offsetRow_length
        list_all_length)
next
  case CHAOS
  then show ?thesis
    by (simp add: updateWavePattern_def forRows_def createEmptyGrid_def offsetRow_length
        list_all_length)
qed

subsection \<open>The shield\<close>

text \<open>
  While the shield is up, a missed click clears the combo and costs no life, and the
  target check changes nothing.
\<close>

theorem shield_keeps_lives:
  "(isPlaying s \<and> \<not> gameOver s \<and> targetCell s = Some t \<and> row < length (grid s)
      \<and> \<not> (t = (row, col) \<and> col < length (grid s ! row) \<and> grid s ! row ! col)
      \<and> powerUpActive s \<longrightarrow>
     (\<exists>s'. handleCellClick e row col s = Inr s' \<and> lives s' = lives s \<and> combo s' = 0
        \<and> gameOver s' = gameOver s))
   \<and> (powerUpActive s \<longrightarrow> targetCheck e s = s)"
proof (rule conjI; rule impI)
  assume a: "isPlaying s \<and> \<not> gameOver s \<and> targetCell s = Some t \<and> row < length (grid s)
      \<and> \<not> (t = (row, col) \<and> col < length (grid s ! row) \<and> grid s ! row ! col)
      \<and> powerUpActive s"
  then have "handleCellClick e row col s = Inr (miss s)"
    using miss_result [of s t row col e] by blast
  with a show "\<exists>s'. handleCellClick e row col s = Inr s' \<and> lives s' = lives s \<and> combo s' = 0
        \<and> gameOver s' = gameOver s"
    by (simp add: lives_miss combo_miss miss_fields)
next
  assume "powerUpActive s"
  then show "targetCheck e s = s"
    by (simp add: targetCheck_def)
qed

theorem shield_keeps_lives_witness:
  "(\<exists>s'. handleCellClick env0 0 7 (lastLife\<lparr>powerUpActive := True\<rparr>) = Inr s' \<and> lives s' = 1
      \<and> combo s' = 0 \<and> \<not> gameOver s')
   \<and> targetCheck env0 (lastLife\<lparr>powerUpActive := True\<rparr>) = lastLife\<lparr>powerUpActive := True\<rparr>"
  using shield_keeps_lives [of "lastLife\<lparr>powerUpActive := True\<rparr>" "(0, 1)" 0 7 env0]
    lastLife_fields
  by simp

end
